theory Spec2Isabelle
  imports Complex_Main "HOL-Library.Word"
begin

unbundle bit_operations_syntax

section \<open>Audio codec: PCM16 packing and base64 transport\<close>

text \<open>
  The helpers \<open>decode\<close>, \<open>encode\<close>, \<open>decodeAudioData\<close> and \<open>createBlob\<close> of the
  application. Float samples are modelled as \<open>real\<close>: the only arithmetic the code does on
  them is a multiplication and a division by \<open>32768\<close>, a power of two, which is exact in
  binary floating point for the values concerned, so no rounding is lost by the model.
  \<open>NaN\<close> and the infinities are not values of \<open>real\<close> and are outside the model.

  A binary string (the argument of \<open>btoa\<close>, the result of \<open>atob\<close>) is a \<open>string\<close>:
  an Isabelle \<open>char\<close> is one byte, which is exactly the range of code units that
  \<open>String.fromCharCode\<close> produces from a \<open>Uint8Array\<close> element.
\<close>

type_synonym byte = "8 word"
type_synonym int16 = "16 word"

datatype js_error = InvalidCharacterError | RangeError | NotSupportedError | TypeError

subsection \<open>The platform's base64 functions\<close>

definition b64_alphabet :: string where
  "b64_alphabet = ''ABCDEFGHIJKLMNOPQRSTUVWXYZabcdefghijklmnopqrstuvwxyz0123456789+/''"

definition b64_char :: "nat \<Rightarrow> char" where
  "b64_char n = b64_alphabet ! n"

fun index_of :: "'a \<Rightarrow> 'a list \<Rightarrow> nat option" where
  "index_of x [] = None"
| "index_of x (y # ys) =
     (if x = y then Some 0 else map_option Suc (index_of x ys))"

definition b64_index :: "char \<Rightarrow> nat option" where
  "b64_index c = index_of c b64_alphabet"

text \<open>Three bytes become four six-bit groups; a final group of one or two bytes is
  padded with zero bits.\<close>

fun encode_groups :: "nat list \<Rightarrow> nat list" where
  "encode_groups (a # b # c # rest) =
     [a div 4, (a mod 4) * 16 + b div 16, (b mod 16) * 4 + c div 64, c mod 64]
     @ encode_groups rest"
| "encode_groups [a, b] = [a div 4, (a mod 4) * 16 + b div 16, (b mod 16) * 4]"
| "encode_groups [a] = [a div 4, (a mod 4) * 16]"
| "encode_groups [] = []"

text \<open>\<open>btoa\<close>: standard base64 with \<open>=\<close> padding to a multiple of four characters.
  It raises only on a code unit above 255, which a \<open>char\<close> cannot hold.\<close>

definition btoa :: "string \<Rightarrow> string" where
  "btoa s = map b64_char (encode_groups (map of_char s))
            @ replicate ((3 - length s mod 3) mod 3) (CHR ''='')"

text \<open>Four six-bit groups become three bytes; a final group of two or three is cut to
  one or two bytes, the spare bits dropped.\<close>

fun decode_groups :: "nat list \<Rightarrow> nat list" where
  "decode_groups (a # b # c # d # rest) =
     [a * 4 + b div 16, (b mod 16) * 16 + c div 4, (c mod 4) * 64 + d]
     @ decode_groups rest"
| "decode_groups [a, b, c] = [a * 4 + b div 16, (b mod 16) * 16 + c div 4]"
| "decode_groups [a, b] = [a * 4 + b div 16]"
| "decode_groups [a] = []"
| "decode_groups [] = []"

definition ascii_whitespace :: "char \<Rightarrow> bool" where
  "ascii_whitespace c \<longleftrightarrow> (of_char c :: nat) \<in> {9, 10, 12, 13, 32}"

definition strip_padding :: "string \<Rightarrow> string" where
  "strip_padding s =
     (if length s mod 4 = 0 \<and> s \<noteq> [] \<and> last s = CHR ''='' then
        (if butlast s \<noteq> [] \<and> last (butlast s) = CHR ''='' then butlast (butlast s)
         else butlast s)
      else s)"

text \<open>\<open>atob\<close>, the forgiving base64 decoder of the platform: white space is removed,
  one or two trailing \<open>=\<close> are removed when the length is a multiple of four, and then a
  length of \<open>1\<close> modulo \<open>4\<close> or any character outside the alphabet is an
  \<open>InvalidCharacterError\<close>.\<close>

definition atob :: "string \<Rightarrow> js_error + string" where
  "atob s =
     (let d = strip_padding (filter (\<lambda>c. \<not> ascii_whitespace c) s) in
      if length d mod 4 = 1 then Inl InvalidCharacterError
      else if \<exists>c \<in> set d. b64_index c = None then Inl InvalidCharacterError
      else Inr (map char_of (decode_groups (map (\<lambda>c. the (b64_index c)) d))))"

subsection \<open>The application's helpers\<close>

text \<open>\<open>decode(base64)\<close>: \<open>atob\<close>, then one byte per code unit.\<close>

definition decode :: "string \<Rightarrow> js_error + byte list" where
  "decode base64 =
     (case atob base64 of
        Inl e \<Rightarrow> Inl e
      | Inr binaryString \<Rightarrow> Inr (map (\<lambda>c. of_nat (of_char c)) binaryString))"

text \<open>\<open>encode(bytes)\<close>: one code unit per byte, then \<open>btoa\<close>.\<close>

definition encode :: "byte list \<Rightarrow> string" where
  "encode bytes = btoa (map (\<lambda>b. char_of (unat b)) bytes)"

text \<open>Storing a number into an \<open>Int16Array\<close> truncates it towards zero and keeps the
  low sixteen bits: there is no clamping and no rounding to nearest.\<close>

definition ToInt16 :: "real \<Rightarrow> int16" where
  "ToInt16 x = word_of_int (if x < 0 then \<lceil>x\<rceil> else \<lfloor>x\<rfloor>)"

text \<open>The byte view of an \<open>Int16Array\<close>'s buffer, little-endian, and the sixteen-bit
  view of a byte buffer, which the constructor refuses for an odd number of bytes.\<close>

definition bytes_of_int16 :: "int16 \<Rightarrow> byte list" where
  "bytes_of_int16 w = [ucast w, ucast (drop_bit 8 w)]"

definition Uint8Array_of :: "int16 list \<Rightarrow> byte list" where
  "Uint8Array_of ws = concat (map bytes_of_int16 ws)"

fun Int16Array_of :: "byte list \<Rightarrow> js_error + int16 list" where
  "Int16Array_of [] = Inr []"
| "Int16Array_of [b] = Inl RangeError"
| "Int16Array_of (lo # hi # rest) =
     (case Int16Array_of rest of
        Inl e \<Rightarrow> Inl e
      | Inr ws \<Rightarrow> Inr ((ucast lo OR push_bit 8 (ucast hi)) # ws))"

record Blob =
  data :: string
  mimeType :: string

definition createBlob :: "real list \<Rightarrow> Blob" where
  "createBlob samples =
     \<lparr> data = encode (Uint8Array_of (map (\<lambda>s. ToInt16 (s * 32768)) samples)),
       mimeType = ''audio/pcm;rate=16000'' \<rparr>"

record AudioBuffer =
  sampleRate :: nat
  frameCount :: nat
  channels :: "real list list"

definition duration :: "AudioBuffer \<Rightarrow> real" where
  "duration b = real (frameCount b) / real (sampleRate b)"

text \<open>\<open>decodeAudioData(data, ctx, sampleRate, numChannels)\<close>. The frame count is the
  number of sixteen-bit samples divided by the channel count; \<open>createBuffer\<close> takes its
  integer part and raises \<open>NotSupportedError\<close> for no channel or no frame. Sample
  \<open>i\<close> of channel \<open>c\<close> is sample \<open>i * numChannels + c\<close> of the input over \<open>32768\<close>.\<close>

definition decodeAudioData :: "byte list \<Rightarrow> nat \<Rightarrow> nat \<Rightarrow> js_error + AudioBuffer" where
  "decodeAudioData bytes rate numChannels =
     (case Int16Array_of bytes of
        Inl e \<Rightarrow> Inl e
      | Inr dataInt16 \<Rightarrow>
          (let n = length dataInt16 div numChannels in
           if numChannels = 0 \<or> n = 0 then Inl NotSupportedError
           else Inr \<lparr> sampleRate = rate, frameCount = n,
                      channels = map (\<lambda>c. map (\<lambda>i. real_of_int (sint (dataInt16 ! (i * numChannels + c))) / 32768)
                                               [0 ..< n])
                                     [0 ..< numChannels] \<rparr>))"

text \<open>Encoding a block and decoding it again as one channel, as the two directions of
  the wire format compose.\<close>

definition roundtrip :: "real list \<Rightarrow> js_error + real list" where
  "roundtrip samples =
     (case decode (data (createBlob samples)) of
        Inl e \<Rightarrow> Inl e
      | Inr bytes \<Rightarrow>
          (case decodeAudioData bytes 24000 1 of
             Inl e \<Rightarrow> Inl e
           | Inr b \<Rightarrow> Inr (hd (channels b))))"

section \<open>The application component\<close>

text \<open>
  The state of the \<open>App\<close> component: its React state, its refs, and the platform
  objects it has created (audio contexts, microphone streams, capture graphs, buffer
  source nodes, live sessions). Platform objects live in lists and are named by their
  index, so that two references to one object see the same mutation. A state setter is
  modelled as an immediate update of the field.
\<close>

datatype ConnectionStatus = Disconnected | Connecting | Connected | Error

datatype Role = User | Assistant

record Message =
  role :: Role
  msgText :: string
  timestamp :: int

record Transcript =
  user :: string
  assistant :: string

record AudioContext =
  ctxSampleRate :: nat
  ctxClosed :: bool

record MediaStream =
  tracksLive :: bool

record CaptureGraph =
  graphStream :: nat
  graphConnected :: bool

record SourceNode =
  startTime :: real
  nodeBuffer :: AudioBuffer
  stopped :: bool

record Session =
  voiceName :: string
  sessionStream :: nat
  closeRequested :: bool

record App =
  status :: ConnectionStatus
  messages :: "Message list"
  selectedVoice :: string
  isListening :: bool
  isAssistantTalking :: bool
  errorMessage :: "string option"
  audioContextRef :: "(nat \<times> nat) option"
  sessionPromiseRef :: "nat option"
  nextStartTimeRef :: real
  sourcesRef :: "nat set"
  transcriptRef :: Transcript
  contexts :: "AudioContext list"
  streams :: "MediaStream list"
  captureGraphs :: "CaptureGraph list"
  sourceNodes :: "SourceNode list"
  sessions :: "Session list"

definition initial :: App where
  "initial =
     \<lparr> status = Disconnected, messages = [], selectedVoice = ''Zephyr'',
       isListening = False, isAssistantTalking = False, errorMessage = None,
       audioContextRef = None, sessionPromiseRef = None, nextStartTimeRef = 0,
       sourcesRef = {}, transcriptRef = \<lparr> user = [], assistant = [] \<rparr>,
       contexts = [], streams = [], captureGraphs = [], sourceNodes = [],
       sessions = [] \<rparr>"

subsection \<open>connect and disconnect\<close>

text \<open>What the awaited and external steps of one \<open>connect()\<close> call do: \<open>None\<close> when
  the step succeeds, \<open>Some m\<close> when it throws or rejects with an error whose message is
  \<open>m\<close>. The \<open>AudioContext\<close> constructor is taken to succeed. Only a synchronous
  throw of the client set-up reaches the \<open>catch\<close>: the promise returned by
  \<open>ai.live.connect\<close> is not awaited.\<close>

record ConnectEnv =
  keySelection :: "string option"
  resume :: "string option"
  getUserMedia :: "string option"
  liveConnect :: "string option"

definition ensureAudioContext :: "App \<Rightarrow> App" where
  "ensureAudioContext a =
     (if audioContextRef a = None then
        a\<lparr> contexts := contexts a @
               [\<lparr> ctxSampleRate = 16000, ctxClosed = False \<rparr>,
                \<lparr> ctxSampleRate = 24000, ctxClosed = False \<rparr>],
           audioContextRef := Some (length (contexts a), Suc (length (contexts a))) \<rparr>
      else a)"

text \<open>The \<open>catch\<close> block of \<open>connect\<close>.\<close>

definition connectFailed :: "string \<Rightarrow> App \<Rightarrow> App" where
  "connectFailed m a =
     a\<lparr> status := Error,
        errorMessage := Some (if m = [] then
          ''Initialization failed. Ensure mic permissions are granted.'' else m) \<rparr>"

definition connect :: "ConnectEnv \<Rightarrow> App \<Rightarrow> App" where
  "connect env a =
     (let a1 = a\<lparr> status := Connecting, errorMessage := None \<rparr> in
      case keySelection env of Some m \<Rightarrow> connectFailed m a1 | None \<Rightarrow>
      let a2 = ensureAudioContext a1 in
      case resume env of Some m \<Rightarrow> connectFailed m a2 | None \<Rightarrow>
      case getUserMedia env of Some m \<Rightarrow> connectFailed m a2 | None \<Rightarrow>
      let stream = length (streams a2);
          a3 = a2\<lparr> streams := streams a2 @ [\<lparr> tracksLive = True \<rparr>] \<rparr> in
      case liveConnect env of Some m \<Rightarrow> connectFailed m a3 | None \<Rightarrow>
      a3\<lparr> sessions := sessions a3 @
             [\<lparr> voiceName = selectedVoice a3, sessionStream = stream,
                closeRequested = False \<rparr>],
          sessionPromiseRef := Some (length (sessions a3)) \<rparr>)"

definition requestClose :: "nat \<Rightarrow> Session list \<Rightarrow> Session list" where
  "requestClose i ss =
     (if i < length ss then ss[i := (ss ! i)\<lparr> closeRequested := True \<rparr>] else ss)"

definition disconnect :: "App \<Rightarrow> App" where
  "disconnect a =
     (let a1 = (case sessionPromiseRef a of
                  None \<Rightarrow> a
                | Some i \<Rightarrow> a\<lparr> sessions := requestClose i (sessions a) \<rparr>) in
      a1\<lparr> status := Disconnected, isListening := False, isAssistantTalking := False \<rparr>)"

text \<open>The control the footer renders for each status: the disconnect button while
  connected, a disabled button while connecting, the connect button otherwise.\<close>

datatype Control = ConnectButton | DisconnectButton

definition offeredControl :: "ConnectionStatus \<Rightarrow> Control option" where
  "offeredControl st =
     (if st = Connected then Some DisconnectButton
      else if st = Connecting then None
      else Some ConnectButton)"

subsection \<open>Session callbacks\<close>

text \<open>\<open>onopen\<close> of the session with index \<open>sid\<close>: the closure holds the stream
  acquired by the \<open>connect()\<close> call that opened the session. Only a session that
  exists calls back.\<close>

definition onopen :: "nat \<Rightarrow> App \<Rightarrow> App" where
  "onopen sid a =
     (if sid < length (sessions a) then
        a\<lparr> status := Connected, isListening := True,
           captureGraphs := captureGraphs a @
             [\<lparr> graphStream = sessionStream (sessions a ! sid), graphConnected = True \<rparr>] \<rparr>
      else a)"

definition onclose :: "App \<Rightarrow> App" where
  "onclose a =
     a\<lparr> status := Disconnected, isListening := False, isAssistantTalking := False \<rparr>"

fun starts_with :: "string \<Rightarrow> string \<Rightarrow> bool" where
  "starts_with s [] = True"
| "starts_with [] (p # ps) = False"
| "starts_with (c # cs) (p # ps) = (c = p \<and> starts_with cs ps)"

fun js_includes :: "string \<Rightarrow> string \<Rightarrow> bool" where
  "js_includes [] p = (p = [])"
| "js_includes (c # cs) p = (starts_with (c # cs) p \<or> js_includes cs p)"

text \<open>\<open>onerror(e)\<close>, with \<open>e?.message\<close> as an optional string.\<close>

definition onerror :: "string option \<Rightarrow> App \<Rightarrow> App" where
  "onerror msg a =
     (let errorText = (case msg of None \<Rightarrow> [] | Some m \<Rightarrow> m) in
      a\<lparr> status := Error,
         errorMessage := Some (if js_includes errorText ''Requested entity was not found''
           then ''API Key or Project mismatch. Please re-select your key.''
           else ''Network error: Connection to Aura lost. Check your API key and connection.'') \<rparr>)"

subsection \<open>Inbound messages\<close>

text \<open>The parts of a \<open>LiveServerMessage\<close> the handler reads. A transcription is
  present or not, and its \<open>text\<close> is optional; a model turn may lack \<open>parts\<close>, and
  each part carries \<open>inlineData?.data\<close> or nothing.\<close>

datatype ModelTurn = WithoutParts | WithParts "string option list"

record LiveServerMessage =
  inputTranscription :: "string option option"
  outputTranscription :: "string option option"
  turnComplete :: bool
  modelTurn :: "ModelTurn option"
  interrupted :: bool

text \<open>What the handler reads from its surroundings while it runs: the output
  context's \<open>currentTime\<close>, the value of the first \<open>Date.now()\<close>, and the
  milliseconds that pass before a second \<open>Date.now()\<close> in the same handler (the
  wall clock is taken not to run backwards between two adjacent statements).\<close>

record MessageEnv =
  currentTime :: real
  dateNow :: int
  dateNowDelay :: nat

text \<open>\<open>s += t\<close> where \<open>t\<close> may be \<open>undefined\<close>.\<close>

definition js_append :: "string \<Rightarrow> string option \<Rightarrow> string" where
  "js_append s t = s @ (case t of None \<Rightarrow> ''undefined'' | Some x \<Rightarrow> x)"

definition appendTranscriptions :: "LiveServerMessage \<Rightarrow> App \<Rightarrow> App" where
  "appendTranscriptions m a =
     (let a1 = (case inputTranscription m of
                  None \<Rightarrow> a
                | Some t \<Rightarrow> a\<lparr> transcriptRef := (transcriptRef a)
                                  \<lparr> user := js_append (user (transcriptRef a)) t \<rparr> \<rparr>) in
      case outputTranscription m of
        None \<Rightarrow> a1
      | Some t \<Rightarrow> a1\<lparr> transcriptRef := (transcriptRef a1)
                         \<lparr> assistant := js_append (assistant (transcriptRef a1)) t \<rparr> \<rparr>)"

text \<open>The records pushed on \<open>turnComplete\<close>: the user's first, stamped with
  \<open>Date.now()\<close>, then the assistant's, stamped with a later \<open>Date.now() + 1\<close>.\<close>

definition newMessages :: "MessageEnv \<Rightarrow> Transcript \<Rightarrow> Message list" where
  "newMessages env t =
     (if user t \<noteq> [] then
        [\<lparr> role = User, msgText = user t, timestamp = dateNow env \<rparr>]
      else [])
     @ (if assistant t \<noteq> [] then
          [\<lparr> role = Assistant, msgText = assistant t,
             timestamp = (if user t \<noteq> [] then dateNow env + int (dateNowDelay env)
                          else dateNow env) + 1 \<rparr>]
        else [])"

definition finalizeTurn :: "MessageEnv \<Rightarrow> App \<Rightarrow> App" where
  "finalizeTurn env a =
     (if user (transcriptRef a) \<noteq> [] \<or> assistant (transcriptRef a) \<noteq> [] then
        a\<lparr> messages := messages a @ newMessages env (transcriptRef a),
           transcriptRef := \<lparr> user = [], assistant = [] \<rparr> \<rparr>
      else a)"

text \<open>\<open>message.serverContent?.modelTurn?.parts[0]?.inlineData?.data\<close>: indexing the
  \<open>parts\<close> of a model turn that has none is a \<open>TypeError\<close>.\<close>

definition audioDataOf :: "LiveServerMessage \<Rightarrow> js_error + string option" where
  "audioDataOf m =
     (case modelTurn m of
        None \<Rightarrow> Inr None
      | Some WithoutParts \<Rightarrow> Inl TypeError
      | Some (WithParts ps) \<Rightarrow> Inr (case ps of [] \<Rightarrow> None | p # _ \<Rightarrow> p))"

text \<open>The playback path. Before the buffer is decoded the talking flag is set and the
  cursor is raised to the output clock; after it, a source node is created, started at
  the cursor, the cursor advanced by the buffer's duration, and the node tracked.\<close>

definition beginAudio :: "real \<Rightarrow> App \<Rightarrow> App" where
  "beginAudio now a =
     a\<lparr> isAssistantTalking := True,
        nextStartTimeRef := max (nextStartTimeRef a) now \<rparr>"

definition startSource :: "AudioBuffer \<Rightarrow> App \<Rightarrow> App" where
  "startSource buffer a =
     a\<lparr> sourceNodes := sourceNodes a @
          [\<lparr> startTime = nextStartTimeRef a, nodeBuffer = buffer, stopped = False \<rparr>],
        nextStartTimeRef := nextStartTimeRef a + duration buffer,
        sourcesRef := insert (length (sourceNodes a)) (sourcesRef a) \<rparr>"

definition schedule :: "real \<Rightarrow> AudioBuffer \<Rightarrow> App \<Rightarrow> App" where
  "schedule now buffer a = startSource buffer (beginAudio now a)"

text \<open>The \<open>ended\<close> listener of source node \<open>n\<close>.\<close>

definition onended :: "nat \<Rightarrow> App \<Rightarrow> App" where
  "onended n a =
     (let a1 = a\<lparr> sourcesRef := sourcesRef a - {n} \<rparr> in
      if sourcesRef a1 = {} then a1\<lparr> isAssistantTalking := False \<rparr> else a1)"

text \<open>The interruption branch: every tracked node is stopped, the set cleared, the
  cursor set to \<open>0\<close> and the talking flag cleared.\<close>

definition stopAll :: "nat set \<Rightarrow> SourceNode list \<Rightarrow> SourceNode list" where
  "stopAll ids ns =
     map (\<lambda>i. if i \<in> ids then (ns ! i)\<lparr> stopped := True \<rparr> else ns ! i) [0 ..< length ns]"

definition onInterrupted :: "App \<Rightarrow> App" where
  "onInterrupted a =
     a\<lparr> sourceNodes := stopAll (sourcesRef a) (sourceNodes a),
        sourcesRef := {},
        nextStartTimeRef := 0,
        isAssistantTalking := False \<rparr>"

text \<open>The branch \<open>if (audioData)\<close>: nothing for a missing or empty payload; otherwise
  the payload is decoded between the two halves of the playback path, and a decoding
  error leaves the handler with the first half done.\<close>

definition playAudio :: "real \<Rightarrow> string option \<Rightarrow> App \<Rightarrow> (js_error \<times> App) + App" where
  "playAudio now audioData a =
     (case audioData of
        None \<Rightarrow> Inr a
      | Some d \<Rightarrow>
          if d = [] then Inr a
          else (let a1 = beginAudio now a in
                case decode d of
                  Inl e \<Rightarrow> Inl (e, a1)
                | Inr bytes \<Rightarrow>
                    (case decodeAudioData bytes 24000 1 of
                       Inl e \<Rightarrow> Inl (e, a1)
                     | Inr buffer \<Rightarrow> Inr (startSource buffer a1))))"

text \<open>\<open>onmessage\<close>. An exception leaves the handler at once and keeps the effects made
  so far; the result says whether the handler ran to its end.\<close>

definition onmessage :: "MessageEnv \<Rightarrow> LiveServerMessage \<Rightarrow> App \<Rightarrow> (js_error + unit) \<times> App" where
  "onmessage env m a =
     (let a1 = appendTranscriptions m a;
          a2 = (if turnComplete m then finalizeTurn env a1 else a1) in
      case audioDataOf m of
        Inl e \<Rightarrow> (Inl e, a2)
      | Inr audioData \<Rightarrow>
          (case playAudio (currentTime env) audioData a2 of
             Inl (e, a3) \<Rightarrow> (Inl e, a3)
           | Inr a3 \<Rightarrow> (Inr (), if interrupted m then onInterrupted a3 else a3)))"

subsection \<open>Events\<close>

datatype Event =
    Connect ConnectEnv
  | Disconnect
  | OnOpen nat
  | OnMessage MessageEnv LiveServerMessage
  | OnError "string option"
  | OnClose
  | OnEnded nat
  | SelectVoice string
  | ClearLogs

fun step :: "Event \<Rightarrow> App \<Rightarrow> App" where
  "step (Connect env) a = connect env a"
| "step Disconnect a = disconnect a"
| "step (OnOpen sid) a = onopen sid a"
| "step (OnMessage env m) a = snd (onmessage env m a)"
| "step (OnError msg) a = onerror msg a"
| "step OnClose a = onclose a"
| "step (OnEnded n) a = onended n a"
| "step (SelectVoice v) a = a\<lparr> selectedVoice := v \<rparr>"
| "step ClearLogs a = a\<lparr> messages := [] \<rparr>"

definition run :: "Event list \<Rightarrow> App \<Rightarrow> App" where
  "run es a = foldl (\<lambda>s e. step e s) a es"

subsection \<open>Runs of calls\<close>

text \<open>A run of \<open>schedule\<close> calls, each with the output clock's time at the call and
  the decoded buffer, and the nodes such a run creates from a given cursor.\<close>

fun schedule_all :: "(real \<times> AudioBuffer) list \<Rightarrow> App \<Rightarrow> App" where
  "schedule_all [] a = a"
| "schedule_all ((now, buffer) # calls) a = schedule_all calls (schedule now buffer a)"

fun plan :: "real \<Rightarrow> (real \<times> AudioBuffer) list \<Rightarrow> SourceNode list" where
  "plan cursor [] = []"
| "plan cursor ((now, buffer) # calls) =
     \<lparr> startTime = max cursor now, nodeBuffer = buffer, stopped = False \<rparr>
     # plan (max cursor now + duration buffer) calls"

text \<open>The buffer the handler decodes from a message, when the message carries a
  non-empty audio payload that \<open>decode\<close> and \<open>decodeAudioData\<close> accept; and the
  inbound messages of a list, each with what the handler reads while it runs, as the
  events of a run.\<close>

definition decodedBuffer :: "LiveServerMessage \<Rightarrow> AudioBuffer option" where
  "decodedBuffer m =
     (case audioDataOf m of
        Inl e \<Rightarrow> None
      | Inr None \<Rightarrow> None
      | Inr (Some d) \<Rightarrow>
          if d = [] then None
          else (case decode d of
                  Inl e \<Rightarrow> None
                | Inr bytes \<Rightarrow>
                    (case decodeAudioData bytes 24000 1 of
                       Inl e \<Rightarrow> None
                     | Inr buffer \<Rightarrow> Some buffer)))"

definition inbound :: "(MessageEnv \<times> LiveServerMessage) list \<Rightarrow> Event list" where
  "inbound msgs = map (\<lambda>(env, m). OnMessage env m) msgs"

text \<open>A message without any content, from which the messages of one kind are built.\<close>

definition noContent :: LiveServerMessage where
  "noContent =
     \<lparr> inputTranscription = None, outputTranscription = None, turnComplete = False,
       modelTurn = None, interrupted = False \<rparr>"

subsection \<open>Sample inputs\<close>

text \<open>Environments of \<open>connect()\<close> in which every step succeeds, and in which the
  microphone is refused; a two-frame buffer; and the base64 text of four zero bytes,
  which decodes to that buffer.\<close>

definition allSucceed :: ConnectEnv where
  "allSucceed = \<lparr> keySelection = None, resume = None, getUserMedia = None, liveConnect = None \<rparr>"

definition micDenied :: ConnectEnv where
  "micDenied =
     \<lparr> keySelection = None, resume = None, getUserMedia = Some ''Permission denied'',
       liveConnect = None \<rparr>"

definition twoFrames :: AudioBuffer where
  "twoFrames = \<lparr> sampleRate = 24000, frameCount = 2, channels = [[0, 0]] \<rparr>"

definition silence :: string where
  "silence = ''AAAAAA==''"

section \<open>Properties of the codec\<close>

subsection \<open>Base64 round trip\<close>

lemma div16_div16: "b < 256 \<Longrightarrow> b div 16 div 16 = (0::nat)"
  by (simp add: div_mult2_eq [symmetric])

lemma div64_div4: "c < 256 \<Longrightarrow> c div 64 div 4 = (0::nat)"
  by (simp add: div_mult2_eq [symmetric])

lemma div16_less: "b < 256 \<Longrightarrow> b div 16 < (16::nat)"
  by (simp add: less_mult_imp_div_less)

lemma div64_less: "c < 256 \<Longrightarrow> c div 64 < (4::nat)"
  by (simp add: less_mult_imp_div_less)

lemma div4_less: "a < 256 \<Longrightarrow> a div 4 < (64::nat)"
  by (simp add: less_mult_imp_div_less)

lemma sextet2_less: "b < 256 \<Longrightarrow> (a mod 4) * 16 + b div 16 < (64::nat)"
  using div16_less [of b] by simp

lemma sextet3_less: "c < 256 \<Longrightarrow> (b mod 16) * 4 + c div 64 < (64::nat)"
  using div64_less [of c] by simp

lemma of_char_less: "(of_char c :: nat) < 256"
proof -
  have "(of_char c :: nat) mod 256 < 256" by simp
  then show ?thesis by (simp only: of_char_mod_256)
qed

lemma decode_encode_groups:
  "\<forall>x \<in> set xs. x < 256 \<Longrightarrow> decode_groups (encode_groups xs) = xs"
proof (induction xs rule: encode_groups.induct)
  case (1 a b c rest)
  then have "b < 256" "c < 256" by simp_all
  with 1 show ?case by (simp add: div16_div16 div64_div4 div16_less div64_less)
next
  case (2 a b)
  then have "b < 256" by simp
  then show ?case by (simp add: div16_div16 div16_less)
next
  case (3 a)
  show ?case by simp
next
  case 4
  show ?case by simp
qed

lemma encode_groups_bound:
  "\<forall>x \<in> set xs. x < 256 \<Longrightarrow> g \<in> set (encode_groups xs) \<Longrightarrow> g < 64"
proof (induction xs rule: encode_groups.induct)
  case (1 a b c rest)
  then have "a < 256" "b < 256" "c < 256" by simp_all
  with 1 show ?case
    using div4_less [of a] sextet2_less [of b a] sextet3_less [of c b] by auto
next
  case (2 a b)
  then have "a < 256" "b < 256" by simp_all
  with 2 show ?case
    using div4_less [of a] sextet2_less [of b a] by auto
next
  case (3 a)
  then have "a < 256" by simp
  with 3 show ?case using div4_less [of a] by auto
next
  case 4
  then show ?case by simp
qed

lemma length_encode_groups_mod: "length (encode_groups xs) mod 4 \<noteq> 1"
  by (induction xs rule: encode_groups.induct) simp_all

lemma Suc3_mod3: "Suc (Suc (Suc n)) mod 3 = n mod 3"
proof -
  have "Suc (Suc (Suc n)) = n + 3" by simp
  then show ?thesis by (simp only: mod_add_self2)
qed

lemma Suc4_mod4: "Suc (Suc (Suc (Suc n))) mod 4 = n mod 4"
proof -
  have "Suc (Suc (Suc (Suc n))) = n + 4" by simp
  then show ?thesis by (simp only: mod_add_self2)
qed

lemma length_btoa_mod:
  "(length (encode_groups xs) + (3 - length xs mod 3) mod 3) mod 4 = 0"
proof (induction xs rule: encode_groups.induct)
  case (1 a b c rest)
  then show ?case by (simp add: Suc3_mod3 Suc4_mod4)
qed simp_all

lemma distinct_b64_alphabet: "distinct b64_alphabet"
  by code_simp

lemma length_b64_alphabet: "length b64_alphabet = 64"
  by (simp add: b64_alphabet_def)

lemma index_of_nth: "distinct xs \<Longrightarrow> n < length xs \<Longrightarrow> index_of (xs ! n) xs = Some n"
proof (induction xs arbitrary: n)
  case Nil
  then show ?case by simp
next
  case (Cons y ys)
  show ?case
  proof (cases n)
    case 0
    then show ?thesis by simp
  next
    case (Suc m)
    with Cons.prems have "ys ! m \<in> set ys" "y \<notin> set ys" by simp_all
    then have "ys ! m \<noteq> y" by blast
    with Suc Cons show ?thesis by simp
  qed
qed

lemma b64_index_char: "n < 64 \<Longrightarrow> b64_index (b64_char n) = Some n"
  by (simp add: b64_index_def b64_char_def index_of_nth distinct_b64_alphabet length_b64_alphabet)

lemma b64_char_in: "n < 64 \<Longrightarrow> b64_char n \<in> set b64_alphabet"
  by (simp add: b64_char_def length_b64_alphabet)

lemma b64_char_not_pad: "n < 64 \<Longrightarrow> b64_char n \<noteq> CHR ''=''"
  using b64_char_in [of n] by (auto simp: b64_alphabet_def)

lemma b64_char_not_space: "n < 64 \<Longrightarrow> \<not> ascii_whitespace (b64_char n)"
  using b64_char_in [of n] by (auto simp: b64_alphabet_def ascii_whitespace_def)

lemma pad_not_space: "\<not> ascii_whitespace (CHR ''='')"
  by (simp add: ascii_whitespace_def)

lemma strip_padding_append:
  assumes "\<forall>c \<in> set cs. c \<noteq> CHR ''=''" and "k \<le> 2"
    and "(length cs + k) mod 4 = 0"
  shows "strip_padding (cs @ replicate k (CHR ''='')) = cs"
proof -
  consider "k = 0" | "k = 1" | "k = 2" using assms(2) by linarith
  then show ?thesis
  proof cases
    case 1
    with assms(1) show ?thesis by (cases cs rule: rev_cases) (simp_all add: strip_padding_def)
  next
    case 2
    with assms(3) have "cs \<noteq> []" by auto
    with assms(1) have "last cs \<noteq> CHR ''=''" by simp
    with 2 assms(3) \<open>cs \<noteq> []\<close> show ?thesis by (simp add: strip_padding_def)
  next
    case 3
    then have "replicate k (CHR ''='') = [CHR ''='', CHR ''='']" by (simp add: numeral_2_eq_2)
    with 3 assms(3) show ?thesis by (simp add: strip_padding_def butlast_append)
  qed
qed

lemma atob_btoa: "atob (btoa s) = Inr s"
proof -
  let ?xs = "map of_char s :: nat list"
  let ?gs = "encode_groups ?xs"
  let ?cs = "map b64_char ?gs"
  let ?k = "(3 - length s mod 3) mod 3"
  have xs: "\<forall>x \<in> set ?xs. x < 256" by (auto simp: of_char_less) 
  have gs: "\<And>g. g \<in> set ?gs \<Longrightarrow> g < 64" using encode_groups_bound [OF xs] .
  have nopad: "\<forall>c \<in> set ?cs. c \<noteq> CHR ''=''" using gs by (auto simp: b64_char_not_pad)
  have nospace: "filter (\<lambda>c. \<not> ascii_whitespace c) (btoa s) = btoa s"
    using gs by (auto simp: btoa_def b64_char_not_space pad_not_space filter_id_conv)
  have len: "(length ?cs + ?k) mod 4 = 0" using length_btoa_mod [of ?xs] by simp
  have strip: "strip_padding (btoa s) = ?cs"
    unfolding btoa_def by (rule strip_padding_append [OF nopad _ len]) simp
  have len1: "length ?cs mod 4 \<noteq> 1" using length_encode_groups_mod [of ?xs] by simp
  have idx: "\<forall>c \<in> set ?cs. b64_index c \<noteq> None" using gs by (auto simp: b64_index_char)
  have inv: "map (\<lambda>c. the (b64_index c)) ?cs = ?gs"
    using gs by (simp add: b64_index_char map_idI)
  have "map char_of (decode_groups ?gs) = s"
    by (simp add: decode_encode_groups [OF xs] comp_def)
  with nospace strip len1 idx inv show ?thesis
    by (simp add: atob_def Let_def)
qed

subsection \<open>PCM16 round trip\<close>

lemma decode_encode: "decode (encode bytes) = Inr bytes"
proof -
  have u: "unat b mod 256 = unat b" for b :: byte
  proof -
    have "unat b < 2 ^ LENGTH(8)" by (rule unsigned_less)
    then show ?thesis by simp
  qed
  have "map (\<lambda>c. of_nat (of_char c)) (map (\<lambda>b. char_of (unat b)) bytes) = bytes"
    by (simp add: comp_def u map_idI)
  then show ?thesis by (simp add: decode_def encode_def atob_btoa)
qed

lemma int16_of_bytes: "ucast (ucast w :: byte) OR push_bit 8 (ucast (ucast (drop_bit 8 w) :: byte)) = (w :: int16)"
  by (rule bit_word_eqI) (auto simp: bit_simps)

lemma Int16Array_of_Uint8Array_of: "Int16Array_of (Uint8Array_of ws) = Inr ws"
  by (induction ws) (simp_all add: Uint8Array_of_def bytes_of_int16_def int16_of_bytes)

lemma sint_ToInt16:
  assumes "- 32768 \<le> x" and "x < 32768"
  shows "sint (ToInt16 x) = (if x < 0 then \<lceil>x\<rceil> else \<lfloor>x\<rfloor>)"
proof -
  let ?n = "if x < 0 then \<lceil>x\<rceil> else \<lfloor>x\<rfloor>"
  have "- 32768 \<le> ?n" "?n < 32768" using assms by (auto simp: le_ceiling_iff floor_less_iff ceiling_less_iff le_floor_iff)
  then have "signed_take_bit 15 ?n = ?n"
    by (simp add: signed_take_bit_int_eq_self_iff)
  then show ?thesis by (simp add: ToInt16_def sint_sbintrunc')
qed

lemma quantization_error:
  assumes "- 1 \<le> s" and "s < 1"
  shows "\<bar>real_of_int (sint (ToInt16 (s * 32768))) / 32768 - s\<bar> < 1 / 32768"
proof -
  let ?x = "s * 32768"
  have r: "- 32768 \<le> ?x" "?x < 32768" using assms by simp_all
  have "\<bar>real_of_int (if ?x < 0 then \<lceil>?x\<rceil> else \<lfloor>?x\<rfloor>) - ?x\<bar> < 1"
    by (cases "?x < 0") (simp_all, linarith+)
  then have "\<bar>real_of_int (sint (ToInt16 ?x)) - ?x\<bar> < 1"
    by (simp only: sint_ToInt16 [OF r])
  then show ?thesis by (simp add: field_simps abs_if split: if_splits)
qed

lemma decodeAudioData_mono:
  assumes "ws \<noteq> []"
  shows "decodeAudioData (Uint8Array_of ws) rate 1 =
     Inr \<lparr> sampleRate = rate, frameCount = length ws,
           channels = [map (\<lambda>w. real_of_int (sint w) / 32768) ws] \<rparr>"
proof -
  have "map (\<lambda>i. real_of_int (sint (ws ! i)) / 32768) [0 ..< length ws]
        = map (\<lambda>w. real_of_int (sint w) / 32768) ws"
    by (rule nth_equalityI) simp_all
  with assms show ?thesis
    by (simp add: decodeAudioData_def Int16Array_of_Uint8Array_of Let_def)
qed

lemma roundtrip_eq:
  "samples \<noteq> [] \<Longrightarrow>
     roundtrip samples = Inr (map (\<lambda>s. real_of_int (sint (ToInt16 (s * 32768))) / 32768) samples)"
  by (simp add: roundtrip_def createBlob_def decode_encode
      decodeAudioData_mono [unfolded One_nat_def] comp_def)


text \<open>
  Claim C2, as the code has it. A non-empty block of samples in \<open>[-1, 1)\<close> is encoded
  by \<open>createBlob\<close> (each sample times \<open>32768\<close>, truncated towards zero into sixteen
  bits, little-endian, base64) and decoded by \<open>decode\<close> and \<open>decodeAudioData\<close> without
  error, into as many samples, each less than one quantization step \<open>1 / 32768\<close> from
  the original.
\<close>

theorem roundtrip_within_step:
  assumes "samples \<noteq> []" and "\<forall>s \<in> set samples. - 1 \<le> s \<and> s < 1"
  shows "\<exists>out. roundtrip samples = Inr out \<and> length out = length samples \<and>
           (\<forall>i < length samples. \<bar>out ! i - samples ! i\<bar> < 1 / 32768)"
proof -
  let ?out = "map (\<lambda>s. real_of_int (sint (ToInt16 (s * 32768))) / 32768) samples"
  have "\<bar>?out ! i - samples ! i\<bar> < 1 / 32768" if "i < length samples" for i
  proof -
    from that have "samples ! i \<in> set samples" by simp
    with assms(2) have "- 1 \<le> samples ! i" "samples ! i < 1" by auto
    then have "\<bar>real_of_int (sint (ToInt16 (samples ! i * 32768))) / 32768 - samples ! i\<bar> < 1 / 32768"
      by (rule quantization_error)
    with that show ?thesis by (simp only: nth_map)
  qed
  moreover have "roundtrip samples = Inr ?out" using assms(1) by (rule roundtrip_eq)
  moreover have "length ?out = length samples" by simp
  ultimately show ?thesis by blast
qed

text \<open>Witness for C2: the block \<open>[1/2, -1, 0]\<close>.\<close>

theorem roundtrip_within_step_witness:
  "\<exists>out. roundtrip [1 / 2, - 1, 0] = Inr out \<and> length out = length [1 / 2, - 1, 0 :: real] \<and>
           (\<forall>i < length [1 / 2, - 1, 0 :: real]. \<bar>out ! i - [1 / 2, - 1, 0] ! i\<bar> < 1 / 32768)"
  using roundtrip_within_step [of "[1 / 2, - 1, 0]"] by simp

text \<open>
  Counterexample to C2 as stated, on the closed interval: the sample \<open>1\<close> lies in
  \<open>[-1, 1]\<close>, is encoded as \<open>32768\<close>, which wraps to \<open>-32768\<close> in sixteen bits, and
  comes back as \<open>-1\<close>, two units away.
\<close>

theorem roundtrip_full_scale_counterexample:
  "(- 1 \<le> (1::real) \<and> (1::real) \<le> 1) \<and> roundtrip [1] = Inr [- 1] \<and> \<not> \<bar>(- 1) - (1::real)\<bar> \<le> 1 / 32768"
  by (simp add: roundtrip_eq ToInt16_def)

section \<open>Properties of the playback scheduler\<close>

text \<open>Times are modelled as \<open>real\<close>, and a handler is taken to run without another
  handler between its steps.\<close>

lemma duration_nonneg: "0 \<le> duration b"
  by (simp add: duration_def)

lemma sourceNodes_schedule:
  "sourceNodes (schedule now b a) =
     sourceNodes a @ [\<lparr> startTime = max (nextStartTimeRef a) now, nodeBuffer = b, stopped = False \<rparr>]"
  by (simp add: schedule_def startSource_def beginAudio_def)

lemma cursor_schedule:
  "nextStartTimeRef (schedule now b a) = max (nextStartTimeRef a) now + duration b"
  by (simp add: schedule_def startSource_def beginAudio_def)

lemma sourceNodes_schedule_all:
  "sourceNodes (schedule_all calls a) = sourceNodes a @ plan (nextStartTimeRef a) calls"
proof (induction calls arbitrary: a)
  case Nil
  show ?case by simp
next
  case (Cons c calls)
  obtain now b where c: "c = (now, b)" by (cases c)
  show ?case by (simp add: c Cons.IH sourceNodes_schedule cursor_schedule)
qed

lemma length_plan: "length (plan c calls) = length calls"
  by (induction calls arbitrary: c) auto

lemma playAudio_schedule:
  "d \<noteq> [] \<Longrightarrow> decode d = Inr bytes \<Longrightarrow> decodeAudioData bytes 24000 1 = Inr buffer \<Longrightarrow>
     playAudio now (Some d) a = Inr (schedule now buffer a)"
  by (simp add: playAudio_def schedule_def Let_def)

lemma decode_silence: "decode silence = Inr [0, 0, 0, 0]"
  by (simp add: silence_def decode_def atob_def strip_padding_def ascii_whitespace_def
      b64_index_def b64_alphabet_def Let_def)

lemma decodeAudioData_silence: "decodeAudioData [0, 0, 0, 0] 24000 1 = Inr twoFrames"
  by (simp add: decodeAudioData_def twoFrames_def Let_def upt_rec)

lemma playAudio_silence: "playAudio now (Some silence) a = Inr (schedule now twoFrames a)"
  by (simp add: playAudio_def decode_silence decodeAudioData_silence [unfolded One_nat_def]
      schedule_def Let_def)
     (simp add: silence_def)


lemma onmessage_silence:
  "onmessage env (noContent\<lparr> modelTurn := Some (WithParts [Some silence]) \<rparr>) a
     = (Inr (), schedule (currentTime env) twoFrames a)"
  by (simp add: onmessage_def noContent_def appendTranscriptions_def audioDataOf_def
      playAudio_silence Let_def)

lemma onmessage_interruption:
  "onmessage env (noContent\<lparr> interrupted := True \<rparr>) a = (Inr (), onInterrupted a)"
  by (simp add: onmessage_def noContent_def appendTranscriptions_def audioDataOf_def
      playAudio_def Let_def)

lemma appendTranscriptions_frame:
  "sourceNodes (appendTranscriptions m a) = sourceNodes a"
  "sourcesRef (appendTranscriptions m a) = sourcesRef a"
  "nextStartTimeRef (appendTranscriptions m a) = nextStartTimeRef a"
  "contexts (appendTranscriptions m a) = contexts a"
  "audioContextRef (appendTranscriptions m a) = audioContextRef a"
  "messages (appendTranscriptions m a) = messages a"
  by (simp_all add: appendTranscriptions_def Let_def split: option.splits)

lemma finalizeTurn_frame:
  "sourceNodes (finalizeTurn env a) = sourceNodes a"
  "sourcesRef (finalizeTurn env a) = sourcesRef a"
  "nextStartTimeRef (finalizeTurn env a) = nextStartTimeRef a"
  "contexts (finalizeTurn env a) = contexts a"
  "audioContextRef (finalizeTurn env a) = audioContextRef a"
  by (simp_all add: finalizeTurn_def)

lemma onmessage_audio:
  assumes "\<not> interrupted m" and "decodedBuffer m = Some b"
  shows "onmessage env m a =
     (Inr (), schedule (currentTime env) b
        (if turnComplete m then finalizeTurn env (appendTranscriptions m a)
         else appendTranscriptions m a))"
proof -
  from assms(2) obtain d bytes where d: "audioDataOf m = Inr (Some d)" "d \<noteq> []"
    and dec: "decode d = Inr bytes" "decodeAudioData bytes 24000 1 = Inr b"
    by (auto simp: decodedBuffer_def split: sum.splits option.splits if_splits)
  from d(2) dec have "playAudio now (Some d) s = Inr (schedule now b s)" for now s
    by (rule playAudio_schedule)
  with assms(1) d(1) show ?thesis by (simp add: onmessage_def Let_def)
qed

lemma onmessage_audio_nodes:
  assumes "\<not> interrupted m" and "decodedBuffer m = Some b"
  shows "sourceNodes (snd (onmessage env m a)) =
           sourceNodes a @ [\<lparr> startTime = max (nextStartTimeRef a) (currentTime env),
                              nodeBuffer = b, stopped = False \<rparr>]"
    and "nextStartTimeRef (snd (onmessage env m a)) =
           max (nextStartTimeRef a) (currentTime env) + duration b"
  by (cases "turnComplete m";
      simp add: onmessage_audio [OF assms] sourceNodes_schedule cursor_schedule
        appendTranscriptions_frame finalizeTurn_frame)+

lemma run_Cons: "run (e # es) a = run es (step e a)"
  by (simp add: run_def)

lemma sourceNodes_inbound:
  "\<forall>(env, m) \<in> set msgs. \<not> interrupted m \<and> decodedBuffer m \<noteq> None \<Longrightarrow>
   sourceNodes (run (inbound msgs) a) =
     sourceNodes a @ plan (nextStartTimeRef a)
       (map (\<lambda>(env, m). (currentTime env, the (decodedBuffer m))) msgs)"
proof (induction msgs arbitrary: a)
  case Nil
  show ?case by (simp add: inbound_def run_def)
next
  case (Cons x msgs)
  obtain env m where x: "x = (env, m)" by (cases x)
  from Cons.prems x obtain b where m: "\<not> interrupted m" "decodedBuffer m = Some b" by auto
  from Cons.prems have rest: "\<forall>(env, m) \<in> set msgs. \<not> interrupted m \<and> decodedBuffer m \<noteq> None"
    by simp
  have "run (inbound (x # msgs)) a = run (inbound msgs) (snd (onmessage env m a))"
    by (simp add: inbound_def run_def x)
  then show ?case
    by (simp add: Cons.IH [OF rest] onmessage_audio_nodes [OF m] x m(2))
qed

lemma plan_first:
  "calls \<noteq> [] \<Longrightarrow> startTime (plan c calls ! 0) = max c (fst (calls ! 0))"
  by (cases calls) auto

lemma plan_buffer:
  "i < length calls \<Longrightarrow> nodeBuffer (plan c calls ! i) = snd (calls ! i)"
proof (induction calls arbitrary: c i)
  case Nil
  then show ?case by simp
next
  case (Cons x calls)
  obtain now b where x: "x = (now, b)" by (cases x)
  from Cons show ?case by (cases i) (simp_all add: x)
qed

lemma plan_next:
  "Suc i < length calls \<Longrightarrow>
     startTime (plan c calls ! Suc i) =
       max (startTime (plan c calls ! i) + duration (snd (calls ! i))) (fst (calls ! Suc i))"
proof (induction calls arbitrary: c i)
  case Nil
  then show ?case by simp
next
  case (Cons x calls)
  obtain now b where x: "x = (now, b)" by (cases x)
  show ?case
  proof (cases i)
    case 0
    with Cons.prems obtain y rest where calls: "calls = y # rest" by (cases calls) auto
    obtain now' b' where y: "y = (now', b')" by (cases y)
    show ?thesis by (simp add: 0 x calls y)
  next
    case (Suc j)
    with Cons.prems have "Suc j < length calls" by simp
    from Cons.IH [OF this] show ?thesis by (simp add: Suc x)
  qed
qed

lemma decodedBuffer_silence:
  "decodedBuffer (noContent\<lparr> modelTurn := Some (WithParts [Some silence]) \<rparr>) = Some twoFrames"
  by (simp add: decodedBuffer_def audioDataOf_def noContent_def decode_silence
      decodeAudioData_silence [unfolded One_nat_def])
     (simp add: silence_def)

text \<open>
  Claim C1. Take any state and any list of inbound messages, none an interruption, each
  carrying an audio payload that decodes, whatever the output clock reads when each is
  handled. Handling them in order creates exactly one source node per message, holding
  that message's decoded buffer. The first starts at the larger of the cursor and the
  clock; each later one starts at the larger of its predecessor's start plus its
  predecessor's duration and the clock at its own message. So start times do not
  decrease, and no node starts before its predecessor has ended. For one such message,
  the handler runs to its end, the node it creates starts at \<open>max cursor now\<close>, and
  the cursor afterwards is that start time plus the buffer's duration.
\<close>

theorem schedule_no_overlap:
  assumes "\<forall>(env, m) \<in> set msgs. \<not> interrupted m \<and> decodedBuffer m \<noteq> None"
  shows "(let ns = drop (length (sourceNodes a)) (sourceNodes (run (inbound msgs) a)) in
      length ns = length msgs \<and>
      (\<forall>i < length msgs. nodeBuffer (ns ! i) = the (decodedBuffer (snd (msgs ! i)))) \<and>
      (msgs \<noteq> [] \<longrightarrow>
         startTime (ns ! 0) = max (nextStartTimeRef a) (currentTime (fst (msgs ! 0)))) \<and>
      (\<forall>i. Suc i < length msgs \<longrightarrow>
         startTime (ns ! Suc i) =
           max (startTime (ns ! i) + duration (nodeBuffer (ns ! i)))
               (currentTime (fst (msgs ! Suc i))) \<and>
         startTime (ns ! i) \<le> startTime (ns ! Suc i) \<and>
         startTime (ns ! i) + duration (nodeBuffer (ns ! i)) \<le> startTime (ns ! Suc i))) \<and>
    (\<not> interrupted m \<and> decodedBuffer m = Some b \<longrightarrow>
       fst (onmessage env m a) = Inr () \<and>
       startTime (last (sourceNodes (snd (onmessage env m a)))) =
         max (nextStartTimeRef a) (currentTime env) \<and>
       nextStartTimeRef (snd (onmessage env m a)) =
         startTime (last (sourceNodes (snd (onmessage env m a)))) + duration b)"
proof -
  let ?calls = "map (\<lambda>(env, m). (currentTime env, the (decodedBuffer m))) msgs"
  let ?p = "plan (nextStartTimeRef a) ?calls"
  have ns: "drop (length (sourceNodes a)) (sourceNodes (run (inbound msgs) a)) = ?p"
    by (simp add: sourceNodes_inbound [OF assms])
  have len: "length ?p = length msgs" by (simp add: length_plan)
  have fst_call: "fst (?calls ! i) = currentTime (fst (msgs ! i))"
    and snd_call: "snd (?calls ! i) = the (decodedBuffer (snd (msgs ! i)))"
    if "i < length msgs" for i
    using that by (simp_all add: case_prod_beta)
  have buf: "nodeBuffer (?p ! i) = the (decodedBuffer (snd (msgs ! i)))" if "i < length msgs" for i
    using that plan_buffer [of i ?calls "nextStartTimeRef a"] by (simp add: case_prod_beta)
  have first: "startTime (?p ! 0) = max (nextStartTimeRef a) (currentTime (fst (msgs ! 0)))"
    if "msgs \<noteq> []"
    using that plan_first [of ?calls "nextStartTimeRef a"] by (simp add: case_prod_beta)
  have nxt: "startTime (?p ! Suc i) =
       max (startTime (?p ! i) + duration (nodeBuffer (?p ! i))) (currentTime (fst (msgs ! Suc i)))"
    if "Suc i < length msgs" for i
  proof -
    from that have i: "i < length msgs" by simp
    from that have "Suc i < length ?calls" by simp
    from plan_next [OF this, of "nextStartTimeRef a"] show ?thesis
      by (simp only: fst_call [OF that] snd_call [OF i] buf [OF i])
  qed
  have adj: "startTime (?p ! i) \<le> startTime (?p ! Suc i) \<and>
       startTime (?p ! i) + duration (nodeBuffer (?p ! i)) \<le> startTime (?p ! Suc i)"
    if "Suc i < length msgs" for i
    using nxt [OF that] duration_nonneg [of "nodeBuffer (?p ! i)"] by linarith
  have step: "fst (onmessage env m a) = Inr () \<and>
       startTime (last (sourceNodes (snd (onmessage env m a)))) =
         max (nextStartTimeRef a) (currentTime env) \<and>
       nextStartTimeRef (snd (onmessage env m a)) =
         startTime (last (sourceNodes (snd (onmessage env m a)))) + duration b"
    if "\<not> interrupted m" "decodedBuffer m = Some b"
  proof -
    have "fst (onmessage env m a) = Inr ()" by (simp add: onmessage_audio [OF that])
    moreover have "startTime (last (sourceNodes (snd (onmessage env m a)))) =
         max (nextStartTimeRef a) (currentTime env)"
      by (simp only: onmessage_audio_nodes [OF that]) simp
    moreover have "nextStartTimeRef (snd (onmessage env m a)) =
         startTime (last (sourceNodes (snd (onmessage env m a)))) + duration b"
      by (simp only: onmessage_audio_nodes [OF that]) simp
    ultimately show ?thesis by simp
  qed
  show ?thesis
    unfolding Let_def ns
    using len buf first nxt adj step by blast
qed

text \<open>Witness for C1: three messages with the same four-byte payload, the third
  handled when the clock has passed the cursor.\<close>

theorem schedule_no_overlap_witness:
  "decodedBuffer (noContent\<lparr> modelTurn := Some (WithParts [Some silence]) \<rparr>) = Some twoFrames \<and>
   length (sourceNodes (run (inbound
     [(\<lparr> currentTime = 0, dateNow = 0, dateNowDelay = 0 \<rparr>,
       noContent\<lparr> modelTurn := Some (WithParts [Some silence]) \<rparr>),
      (\<lparr> currentTime = 0, dateNow = 0, dateNowDelay = 0 \<rparr>,
       noContent\<lparr> modelTurn := Some (WithParts [Some silence]) \<rparr>),
      (\<lparr> currentTime = 5, dateNow = 0, dateNowDelay = 0 \<rparr>,
       noContent\<lparr> modelTurn := Some (WithParts [Some silence]) \<rparr>)]) initial)) = 3 \<and>
   map startTime (sourceNodes (run (inbound
     [(\<lparr> currentTime = 0, dateNow = 0, dateNowDelay = 0 \<rparr>,
       noContent\<lparr> modelTurn := Some (WithParts [Some silence]) \<rparr>),
      (\<lparr> currentTime = 0, dateNow = 0, dateNowDelay = 0 \<rparr>,
       noContent\<lparr> modelTurn := Some (WithParts [Some silence]) \<rparr>),
      (\<lparr> currentTime = 5, dateNow = 0, dateNowDelay = 0 \<rparr>,
       noContent\<lparr> modelTurn := Some (WithParts [Some silence]) \<rparr>)]) initial))
     = [0, 1 / 12000, 5] \<and>
   (0::real) + duration twoFrames \<le> 1 / 12000"
proof -
  let ?m = "noContent\<lparr> modelTurn := Some (WithParts [Some silence]) \<rparr>"
  let ?msgs = "[(\<lparr> currentTime = 0, dateNow = 0, dateNowDelay = 0 \<rparr>, ?m),
      (\<lparr> currentTime = 0, dateNow = 0, dateNowDelay = 0 \<rparr>, ?m),
      (\<lparr> currentTime = 5, dateNow = 0, dateNowDelay = 0 \<rparr>, ?m)]"
  have i: "\<not> interrupted ?m" by (simp add: noContent_def)
  have d: "decodedBuffer ?m = Some twoFrames" by (rule decodedBuffer_silence)
  have hyp: "\<forall>(env, m) \<in> set ?msgs. \<not> interrupted m \<and> decodedBuffer m \<noteq> None"
    using i d by simp
  have nodes: "map startTime (sourceNodes (run (inbound ?msgs) initial)) = [0, 1 / 12000, 5]"
    by (simp add: inbound_def run_def onmessage_silence schedule_def startSource_def
        beginAudio_def initial_def duration_def twoFrames_def)
  from schedule_no_overlap [OF hyp, of initial]
  have "length (drop (length (sourceNodes initial)) (sourceNodes (run (inbound ?msgs) initial)))
        = length ?msgs"
    by (simp add: Let_def)
  then have len: "length (sourceNodes (run (inbound ?msgs) initial)) = 3"
    by (simp add: initial_def)
  have dur: "(0::real) + duration twoFrames \<le> 1 / 12000"
    by (simp add: duration_def twoFrames_def)
  from d len nodes dur show ?thesis by simp
qed

subsection \<open>Interruption\<close>

lemma playAudio_done:
  assumes "playAudio now d a = Inr a'"
  shows "\<exists>extra. sourceNodes a' = sourceNodes a @ extra"
    and "sourcesRef a \<subseteq> sourcesRef a'"
    and "contexts a' = contexts a"
    and "audioContextRef a' = audioContextRef a"
  using assms
  by (auto simp: playAudio_def Let_def startSource_def beginAudio_def
      split: option.splits if_splits sum.splits)

lemma playAudio_thrown:
  assumes "playAudio now d a = Inl (e, a')"
  shows "contexts a' = contexts a" and "audioContextRef a' = audioContextRef a"
  using assms
  by (auto simp: playAudio_def Let_def beginAudio_def
      split: option.splits if_splits sum.splits)

lemma stopAll_stops:
  "n \<in> ids \<Longrightarrow> n < length ns \<Longrightarrow> stopped (stopAll ids ns ! n)"
  by (simp add: stopAll_def)

lemma onmessage_interrupted:
  assumes "interrupted m" and "fst (onmessage env m a) = Inr ()"
  obtains a3 where "snd (onmessage env m a) = onInterrupted a3"
    and "\<exists>extra. sourceNodes a3 = sourceNodes a @ extra"
    and "sourcesRef a \<subseteq> sourcesRef a3"
proof -
  let ?a2 = "if turnComplete m then finalizeTurn env (appendTranscriptions m a)
             else appendTranscriptions m a"
  from assms(2) obtain d where d: "audioDataOf m = Inr d"
    by (cases "audioDataOf m") (simp_all add: onmessage_def Let_def)
  from assms(2) d obtain a3 where a3: "playAudio (currentTime env) d ?a2 = Inr a3"
    by (cases "playAudio (currentTime env) d ?a2")
       (auto simp: onmessage_def Let_def split: prod.splits)
  have "snd (onmessage env m a) = onInterrupted a3"
    using assms(1) d a3 by (simp add: onmessage_def Let_def)
  moreover have "\<exists>extra. sourceNodes a3 = sourceNodes a @ extra"
    using playAudio_done(1) [OF a3]
    by (cases "turnComplete m") (simp_all add: appendTranscriptions_frame finalizeTurn_frame)
  moreover have "sourcesRef a \<subseteq> sourcesRef a3"
    using playAudio_done(2) [OF a3]
    by (cases "turnComplete m") (simp_all add: appendTranscriptions_frame finalizeTurn_frame)
  ultimately show thesis by (rule that)
qed

lemma interrupted_postcondition:
  assumes "interrupted m" and "fst (onmessage env m a) = Inr ()"
  shows "sourcesRef (snd (onmessage env m a)) = {} \<and>
         \<not> isAssistantTalking (snd (onmessage env m a)) \<and>
         (\<forall>n \<in> sourcesRef a. n < length (sourceNodes a) \<longrightarrow>
            stopped (sourceNodes (snd (onmessage env m a)) ! n))"
proof -
  from assms obtain a3 where a3: "snd (onmessage env m a) = onInterrupted a3"
    and ext: "\<exists>extra. sourceNodes a3 = sourceNodes a @ extra"
    and sub: "sourcesRef a \<subseteq> sourcesRef a3"
    by (rule onmessage_interrupted)
  have "stopped (sourceNodes (onInterrupted a3) ! n)"
    if "n \<in> sourcesRef a" "n < length (sourceNodes a)" for n
  proof -
    from that sub have "n \<in> sourcesRef a3" by blast
    moreover from that ext have "n < length (sourceNodes a3)" by auto
    ultimately show ?thesis by (simp add: onInterrupted_def stopAll_stops)
  qed
  then show ?thesis by (simp add: a3) (simp add: onInterrupted_def)
qed

text \<open>
  Claim C3. A message that carries only the interruption flag is always handled to its
  end; and whenever a message with the interruption flag is handled to its end, whatever
  the state before, the active set is empty afterwards, the talking flag is clear, and
  every node that was in the active set has been stopped.
\<close>

theorem interruption_clears_active_set:
  "fst (onmessage env (noContent\<lparr> interrupted := True \<rparr>) a) = Inr () \<and>
   (interrupted m \<and> fst (onmessage env m a) = Inr () \<longrightarrow>
      sourcesRef (snd (onmessage env m a)) = {} \<and>
      \<not> isAssistantTalking (snd (onmessage env m a)) \<and>
      (\<forall>n \<in> sourcesRef a. n < length (sourceNodes a) \<longrightarrow>
         stopped (sourceNodes (snd (onmessage env m a)) ! n)))"
proof (rule conjI)
  show "fst (onmessage env (noContent\<lparr> interrupted := True \<rparr>) a) = Inr ()"
    by (simp add: onmessage_interruption)
next
  show "interrupted m \<and> fst (onmessage env m a) = Inr () \<longrightarrow>
      sourcesRef (snd (onmessage env m a)) = {} \<and>
      \<not> isAssistantTalking (snd (onmessage env m a)) \<and>
      (\<forall>n \<in> sourcesRef a. n < length (sourceNodes a) \<longrightarrow>
         stopped (sourceNodes (snd (onmessage env m a)) ! n))"
  proof (rule impI)
    assume h: "interrupted m \<and> fst (onmessage env m a) = Inr ()"
    from h have "interrupted m" by (rule conjunct1)
    moreover from h have "fst (onmessage env m a) = Inr ()" by (rule conjunct2)
    ultimately show "sourcesRef (snd (onmessage env m a)) = {} \<and>
      \<not> isAssistantTalking (snd (onmessage env m a)) \<and>
      (\<forall>n \<in> sourcesRef a. n < length (sourceNodes a) \<longrightarrow>
         stopped (sourceNodes (snd (onmessage env m a)) ! n))"
      by (rule interrupted_postcondition)
  qed
qed

text \<open>Witness for C3: three scheduled handles, then an interruption while the first
  is playing.\<close>

theorem interruption_clears_active_set_witness:
  "0 \<in> sourcesRef (schedule_all [(0, twoFrames), (0, twoFrames), (5, twoFrames)] initial) \<and>
   1 \<in> sourcesRef (schedule_all [(0, twoFrames), (0, twoFrames), (5, twoFrames)] initial) \<and>
   2 \<in> sourcesRef (schedule_all [(0, twoFrames), (0, twoFrames), (5, twoFrames)] initial) \<and>
   isAssistantTalking (schedule_all [(0, twoFrames), (0, twoFrames), (5, twoFrames)] initial) \<and>
   fst (onmessage \<lparr> currentTime = 1 / 24000, dateNow = 0, dateNowDelay = 0 \<rparr>
          (noContent\<lparr> interrupted := True \<rparr>)
          (schedule_all [(0, twoFrames), (0, twoFrames), (5, twoFrames)] initial)) = Inr () \<and>
   sourcesRef (snd (onmessage \<lparr> currentTime = 1 / 24000, dateNow = 0, dateNowDelay = 0 \<rparr>
          (noContent\<lparr> interrupted := True \<rparr>)
          (schedule_all [(0, twoFrames), (0, twoFrames), (5, twoFrames)] initial))) = {} \<and>
   \<not> isAssistantTalking (snd (onmessage \<lparr> currentTime = 1 / 24000, dateNow = 0, dateNowDelay = 0 \<rparr>
          (noContent\<lparr> interrupted := True \<rparr>)
          (schedule_all [(0, twoFrames), (0, twoFrames), (5, twoFrames)] initial))) \<and>
   stopped (sourceNodes (snd (onmessage \<lparr> currentTime = 1 / 24000, dateNow = 0, dateNowDelay = 0 \<rparr>
          (noContent\<lparr> interrupted := True \<rparr>)
          (schedule_all [(0, twoFrames), (0, twoFrames), (5, twoFrames)] initial))) ! 0) \<and>
   stopped (sourceNodes (snd (onmessage \<lparr> currentTime = 1 / 24000, dateNow = 0, dateNowDelay = 0 \<rparr>
          (noContent\<lparr> interrupted := True \<rparr>)
          (schedule_all [(0, twoFrames), (0, twoFrames), (5, twoFrames)] initial))) ! 1) \<and>
   stopped (sourceNodes (snd (onmessage \<lparr> currentTime = 1 / 24000, dateNow = 0, dateNowDelay = 0 \<rparr>
          (noContent\<lparr> interrupted := True \<rparr>)
          (schedule_all [(0, twoFrames), (0, twoFrames), (5, twoFrames)] initial))) ! 2)"
proof -
  let ?m = "noContent\<lparr> interrupted := True \<rparr>"
  let ?env = "\<lparr> currentTime = 1 / 24000, dateNow = 0, dateNowDelay = 0 \<rparr>"
  let ?a = "schedule_all [(0, twoFrames), (0, twoFrames), (5, twoFrames)] initial"
  have m: "interrupted ?m" by (simp add: noContent_def)
  have r: "fst (onmessage ?env ?m ?a) = Inr ()" by (simp add: onmessage_interruption)
  have ids: "sourcesRef ?a = {0, 1, 2}"
    by (auto simp: initial_def schedule_def startSource_def beginAudio_def)
  have len: "length (sourceNodes ?a) = 3"
    by (simp add: schedule_def startSource_def beginAudio_def initial_def)
  from interruption_clears_active_set [of ?env ?a ?m] m r ids len
  have "stopped (sourceNodes (snd (onmessage ?env ?m ?a)) ! 0)"
    "stopped (sourceNodes (snd (onmessage ?env ?m ?a)) ! 1)"
    "stopped (sourceNodes (snd (onmessage ?env ?m ?a)) ! 2)"
    "sourcesRef (snd (onmessage ?env ?m ?a)) = {}"
    "\<not> isAssistantTalking (snd (onmessage ?env ?m ?a))"
    by simp_all
  moreover have "isAssistantTalking ?a"
    by (simp add: schedule_def startSource_def beginAudio_def)
  ultimately show ?thesis using r ids by simp
qed

text \<open>
  Claim C4, as the code has it. When a message with the interruption flag is handled to
  its end, the cursor is \<open>0\<close> afterwards, whatever the output clock reads; and since a
  start time is the larger of the cursor and the clock, which is never negative, the
  next buffer scheduled starts at the clock's time at that call.
\<close>

theorem interruption_resets_cursor_to_zero:
  assumes "interrupted m" and "fst (onmessage env m a) = Inr ()"
  shows "nextStartTimeRef (snd (onmessage env m a)) = 0 \<and>
         (\<forall>now b. 0 \<le> now \<longrightarrow>
            startTime (last (sourceNodes (schedule now b (snd (onmessage env m a))))) = now)"
proof -
  from assms obtain a3 where a3: "snd (onmessage env m a) = onInterrupted a3"
    by (rule onmessage_interrupted)
  show ?thesis
    by (simp add: a3 onInterrupted_def schedule_def startSource_def beginAudio_def)
qed

text \<open>Witness for C4: an interruption at clock time \<open>5\<close> after one buffer, then a
  buffer scheduled at clock time \<open>6\<close>.\<close>

theorem interruption_resets_cursor_to_zero_witness:
  "nextStartTimeRef (snd (onmessage \<lparr> currentTime = 5, dateNow = 0, dateNowDelay = 0 \<rparr>
      (noContent\<lparr> interrupted := True \<rparr>) (schedule 4 twoFrames initial))) = 0 \<and>
   startTime (last (sourceNodes (schedule 6 twoFrames
      (snd (onmessage \<lparr> currentTime = 5, dateNow = 0, dateNowDelay = 0 \<rparr>
         (noContent\<lparr> interrupted := True \<rparr>) (schedule 4 twoFrames initial)))))) = 6"
proof -
  let ?m = "noContent\<lparr> interrupted := True \<rparr>"
  let ?env = "\<lparr> currentTime = 5, dateNow = 0, dateNowDelay = 0 \<rparr>"
  let ?a = "schedule 4 twoFrames initial"
  have m: "interrupted ?m" by (simp add: noContent_def)
  have r: "fst (onmessage ?env ?m ?a) = Inr ()" by (simp add: onmessage_interruption)
  from interruption_resets_cursor_to_zero [OF m r]
  have "nextStartTimeRef (snd (onmessage ?env ?m ?a)) = 0"
    and "\<And>now b. 0 \<le> now \<Longrightarrow>
           startTime (last (sourceNodes (schedule now b (snd (onmessage ?env ?m ?a))))) = now"
    by blast+
  from this(1) this(2) [of 6 twoFrames] show ?thesis by simp
qed

text \<open>Counterexample to C4 as stated: the interruption is handled while the output
  clock reads \<open>5\<close>, and the cursor afterwards is \<open>0\<close>, not the clock's time.\<close>

theorem interruption_cursor_counterexample:
  "nextStartTimeRef (snd (onmessage \<lparr> currentTime = 5, dateNow = 0, dateNowDelay = 0 \<rparr>
      (noContent\<lparr> interrupted := True \<rparr>) (schedule 4 twoFrames initial))) = 0 \<and>
   nextStartTimeRef (snd (onmessage \<lparr> currentTime = 5, dateNow = 0, dateNowDelay = 0 \<rparr>
      (noContent\<lparr> interrupted := True \<rparr>) (schedule 4 twoFrames initial)))
     \<noteq> currentTime \<lparr> currentTime = 5, dateNow = 0, dateNowDelay = 0 \<rparr>"
  by (simp add: onmessage_interruption onInterrupted_def)

section \<open>Properties of the connection life cycle\<close>

text \<open>A \<open>connect()\<close> call is modelled as one step, whose awaited parts succeed or fail
  as its environment says; \<open>session.close()\<close>, which the code calls once the session
  promise resolves, is modelled as a request recorded on the session.\<close>

lemma connected_state:
  "onopen 0 (connect allSucceed initial) =
     initial\<lparr> status := Connected, isListening := True,
       audioContextRef := Some (0, 1),
       contexts := [\<lparr> ctxSampleRate = 16000, ctxClosed = False \<rparr>,
                    \<lparr> ctxSampleRate = 24000, ctxClosed = False \<rparr>],
       streams := [\<lparr> tracksLive = True \<rparr>],
       sessions := [\<lparr> voiceName = ''Zephyr'', sessionStream = 0, closeRequested = False \<rparr>],
       sessionPromiseRef := Some 0,
       captureGraphs := [\<lparr> graphStream = 0, graphConnected = True \<rparr>] \<rparr>"
  by (simp add: onopen_def connect_def allSucceed_def initial_def ensureAudioContext_def Let_def)




text \<open>
  Claim C6, as the code has it. \<open>connect()\<close> has no guard of its own: the footer offers
  the disconnect button, not the connect button, while the status is \<open>Connected\<close>;
  and a call made in that status all the same leaves it, and, when every step succeeds,
  clears the error slot, enters \<open>Connecting\<close>, acquires another microphone stream and
  opens another channel, which replaces the session reference.
\<close>

theorem connect_while_connected:
  assumes "status a = Connected"
  shows "offeredControl (status a) = Some DisconnectButton \<and>
         status (connect env a) \<noteq> Connected \<and>
         status (connect allSucceed a) = Connecting \<and>
         errorMessage (connect allSucceed a) = None \<and>
         length (streams (connect allSucceed a)) = Suc (length (streams a)) \<and>
         length (sessions (connect allSucceed a)) = Suc (length (sessions a)) \<and>
         sessionPromiseRef (connect allSucceed a) = Some (length (sessions a))"
  using assms
  by (simp add: connect_def connectFailed_def ensureAudioContext_def allSucceed_def Let_def
      offeredControl_def split: option.splits)

text \<open>Witness for C6: a second \<open>connect()\<close> after the first session has opened.\<close>

theorem connect_while_connected_witness:
  "status (onopen 0 (connect allSucceed initial)) = Connected \<and>
   offeredControl (status (onopen 0 (connect allSucceed initial))) = Some DisconnectButton \<and>
   status (connect allSucceed (onopen 0 (connect allSucceed initial))) = Connecting \<and>
   sessionPromiseRef (connect allSucceed (onopen 0 (connect allSucceed initial))) = Some 1"
  using connect_while_connected [of "onopen 0 (connect allSucceed initial)" allSucceed]
  by (simp add: connected_state)

text \<open>Counterexample to C6 as stated: in the state reached by a successful
  \<open>connect()\<close> and its \<open>onopen\<close>, another \<open>connect()\<close> changes the status, acquires
  a second stream and replaces the session reference.\<close>

theorem connect_while_connected_counterexample:
  "status (onopen 0 (connect allSucceed initial)) = Connected \<and>
   status (connect allSucceed (onopen 0 (connect allSucceed initial))) = Connecting \<and>
   length (streams (onopen 0 (connect allSucceed initial))) = 1 \<and>
   length (streams (connect allSucceed (onopen 0 (connect allSucceed initial)))) = 2 \<and>
   sessionPromiseRef (onopen 0 (connect allSucceed initial)) = Some 0 \<and>
   sessionPromiseRef (connect allSucceed (onopen 0 (connect allSucceed initial))) = Some 1"
  by (simp add: connected_state)
     (simp add: connect_def ensureAudioContext_def allSucceed_def initial_def Let_def)

text \<open>
  Claim C7, as the code has it. On a channel close the status becomes \<open>Disconnected\<close>
  and the listening and talking flags are cleared; the scheduler is left as it is (active
  set, cursor and nodes unchanged); and the capture side is left as it is too: the
  capture graphs and the microphone streams are unchanged.
\<close>

theorem onclose_effects:
  "status (onclose a) = Disconnected \<and>
   \<not> isListening (onclose a) \<and>
   \<not> isAssistantTalking (onclose a) \<and>
   sourcesRef (onclose a) = sourcesRef a \<and>
   nextStartTimeRef (onclose a) = nextStartTimeRef a \<and>
   sourceNodes (onclose a) = sourceNodes a \<and>
   captureGraphs (onclose a) = captureGraphs a \<and>
   streams (onclose a) = streams a"
  by (simp add: onclose_def)

text \<open>Witness for C7: the channel closes while one buffer is scheduled.\<close>

theorem onclose_effects_witness:
  "status (onclose (schedule 0 twoFrames (onopen 0 (connect allSucceed initial)))) = Disconnected \<and>
   \<not> isListening (onclose (schedule 0 twoFrames (onopen 0 (connect allSucceed initial)))) \<and>
   sourcesRef (onclose (schedule 0 twoFrames (onopen 0 (connect allSucceed initial)))) = {0} \<and>
   nextStartTimeRef (onclose (schedule 0 twoFrames (onopen 0 (connect allSucceed initial)))) = 1 / 12000"
  using onclose_effects [of "schedule 0 twoFrames (onopen 0 (connect allSucceed initial))"]
  by (simp add: connected_state)
     (simp add: schedule_def startSource_def beginAudio_def initial_def duration_def twoFrames_def)

text \<open>Counterexample to C7 as stated: after \<open>onopen\<close> the capture graph is connected
  to a live microphone stream, and after \<open>onclose\<close> it still is.\<close>

theorem onclose_capture_counterexample:
  "captureGraphs (onopen 0 (connect allSucceed initial)) =
     [\<lparr> graphStream = 0, graphConnected = True \<rparr>] \<and>
   captureGraphs (onclose (onopen 0 (connect allSucceed initial))) =
     [\<lparr> graphStream = 0, graphConnected = True \<rparr>] \<and>
   streams (onclose (onopen 0 (connect allSucceed initial))) = [\<lparr> tracksLive = True \<rparr>]"
  by (simp add: connected_state onclose_def)

text \<open>
  Claim C8, as the code has it. \<open>disconnect()\<close> asks the current session to close and
  itself sets the status to \<open>Disconnected\<close> and clears the listening and talking flags,
  before any close event arrives.
\<close>

theorem disconnect_is_synchronous:
  "status (disconnect a) = Disconnected \<and>
   \<not> isListening (disconnect a) \<and>
   \<not> isAssistantTalking (disconnect a) \<and>
   length (sessions (disconnect a)) = length (sessions a) \<and>
   (\<forall>i. sessionPromiseRef a = Some i \<and> i < length (sessions a) \<longrightarrow>
        closeRequested (sessions (disconnect a) ! i))"
  by (simp add: disconnect_def requestClose_def Let_def split: option.splits)

text \<open>Witness for C8: \<open>disconnect()\<close> in the connected state.\<close>

theorem disconnect_is_synchronous_witness:
  "sessionPromiseRef (onopen 0 (connect allSucceed initial)) = Some 0 \<and>
   status (disconnect (onopen 0 (connect allSucceed initial))) = Disconnected \<and>
   closeRequested (sessions (disconnect (onopen 0 (connect allSucceed initial))) ! 0)"
  using disconnect_is_synchronous [of "onopen 0 (connect allSucceed initial)"]
  by (simp add: connected_state)

text \<open>Counterexample to C8 as stated: in the connected state, the status right after
  \<open>disconnect()\<close>, with no close event handled, is \<open>Disconnected\<close>.\<close>

theorem disconnect_counterexample:
  "status (onopen 0 (connect allSucceed initial)) = Connected \<and>
   status (disconnect (onopen 0 (connect allSucceed initial))) = Disconnected"
  by (simp add: connected_state disconnect_def Let_def)

section \<open>Properties of the transcript\<close>

lemma onmessage_user:
  "onmessage env (noContent\<lparr> inputTranscription := Some (Some t) \<rparr>) a =
     (Inr (), a\<lparr> transcriptRef := (transcriptRef a)\<lparr> user := user (transcriptRef a) @ t \<rparr> \<rparr>)"
  by (simp add: onmessage_def noContent_def appendTranscriptions_def audioDataOf_def
      playAudio_def js_append_def Let_def)

lemma onmessage_assistant:
  "onmessage env (noContent\<lparr> outputTranscription := Some (Some t) \<rparr>) a =
     (Inr (), a\<lparr> transcriptRef := (transcriptRef a)\<lparr> assistant := assistant (transcriptRef a) @ t \<rparr> \<rparr>)"
  by (simp add: onmessage_def noContent_def appendTranscriptions_def audioDataOf_def
      playAudio_def js_append_def Let_def)

lemma onmessage_turnComplete:
  "onmessage env (noContent\<lparr> turnComplete := True \<rparr>) a = (Inr (), finalizeTurn env a)"
  by (simp add: onmessage_def noContent_def appendTranscriptions_def audioDataOf_def
      playAudio_def Let_def)

text \<open>
  Claim C9. From empty buffers, the messages carrying the user fragment \<open>a\<close>, the
  assistant fragment \<open>b\<close>, the user fragment \<open>c\<close> and then a turn completion append
  exactly two records to the log, the user's \<open>ac\<close> first and the assistant's \<open>b\<close>
  second, the second with the later timestamp, and clear both buffers; a second turn
  completion right after changes nothing.
\<close>

theorem transcript_interleaved:
  assumes "transcriptRef a = \<lparr> user = [], assistant = [] \<rparr>"
  shows "let a1 = snd (onmessage e1 (noContent\<lparr> inputTranscription := Some (Some ''a'') \<rparr>) a);
             a2 = snd (onmessage e2 (noContent\<lparr> outputTranscription := Some (Some ''b'') \<rparr>) a1);
             a3 = snd (onmessage e3 (noContent\<lparr> inputTranscription := Some (Some ''c'') \<rparr>) a2);
             a4 = snd (onmessage e4 (noContent\<lparr> turnComplete := True \<rparr>) a3);
             a5 = snd (onmessage e5 (noContent\<lparr> turnComplete := True \<rparr>) a4)
         in messages a4 = messages a @
              [\<lparr> role = User, msgText = ''ac'', timestamp = dateNow e4 \<rparr>,
               \<lparr> role = Assistant, msgText = ''b'',
                 timestamp = dateNow e4 + int (dateNowDelay e4) + 1 \<rparr>] \<and>
            timestamp (messages a4 ! length (messages a))
              < timestamp (messages a4 ! Suc (length (messages a))) \<and>
            transcriptRef a4 = \<lparr> user = [], assistant = [] \<rparr> \<and>
            messages a5 = messages a4 \<and>
            a5 = a4"
  using assms
  by (simp add: onmessage_user onmessage_assistant onmessage_turnComplete finalizeTurn_def
      newMessages_def Let_def nth_append)

text \<open>Witness for C9: the run from the initial state.\<close>

theorem transcript_interleaved_witness:
  "transcriptRef initial = \<lparr> user = [], assistant = [] \<rparr> \<and>
   messages (snd (onmessage \<lparr> currentTime = 0, dateNow = 1700000000000, dateNowDelay = 0 \<rparr>
       (noContent\<lparr> turnComplete := True \<rparr>)
     (snd (onmessage \<lparr> currentTime = 0, dateNow = 0, dateNowDelay = 0 \<rparr>
       (noContent\<lparr> inputTranscription := Some (Some ''c'') \<rparr>)
     (snd (onmessage \<lparr> currentTime = 0, dateNow = 0, dateNowDelay = 0 \<rparr>
       (noContent\<lparr> outputTranscription := Some (Some ''b'') \<rparr>)
     (snd (onmessage \<lparr> currentTime = 0, dateNow = 0, dateNowDelay = 0 \<rparr>
       (noContent\<lparr> inputTranscription := Some (Some ''a'') \<rparr>) initial))))))))
   = [\<lparr> role = User, msgText = ''ac'', timestamp = 1700000000000 \<rparr>,
      \<lparr> role = Assistant, msgText = ''b'', timestamp = 1700000000001 \<rparr>]"
  using transcript_interleaved [of initial
      "\<lparr> currentTime = 0, dateNow = 0, dateNowDelay = 0 \<rparr>"
      "\<lparr> currentTime = 0, dateNow = 0, dateNowDelay = 0 \<rparr>"
      "\<lparr> currentTime = 0, dateNow = 0, dateNowDelay = 0 \<rparr>"
      "\<lparr> currentTime = 0, dateNow = 1700000000000, dateNowDelay = 0 \<rparr>"
      "\<lparr> currentTime = 0, dateNow = 0, dateNowDelay = 0 \<rparr>"]
  by (simp add: Let_def initial_def)

section \<open>Properties of the audio contexts\<close>

lemma onmessage_contexts:
  "contexts (snd (onmessage env m a)) = contexts a \<and>
   audioContextRef (snd (onmessage env m a)) = audioContextRef a"
proof -
  let ?a2 = "if turnComplete m then finalizeTurn env (appendTranscriptions m a)
             else appendTranscriptions m a"
  have a2: "contexts ?a2 = contexts a \<and> audioContextRef ?a2 = audioContextRef a"
    by (simp add: appendTranscriptions_frame finalizeTurn_frame)
  show ?thesis
  proof (cases "audioDataOf m")
    case (Inl e)
    with a2 show ?thesis by (simp add: onmessage_def Let_def)
  next
    case (Inr d)
    show ?thesis
    proof (cases "playAudio (currentTime env) d ?a2")
      case (Inl p)
      obtain e a3 where p: "p = (e, a3)" by (cases p)
      from playAudio_thrown [OF Inl [unfolded p]] a2 Inl Inr p show ?thesis
        by (simp add: onmessage_def Let_def)
    next
      case (Inr a3)
      from playAudio_done(3,4) [OF Inr] a2 Inr \<open>audioDataOf m = Inr d\<close> show ?thesis
        by (simp add: onmessage_def Let_def onInterrupted_def)
    qed
  qed
qed

lemma connect_contexts:
  "(contexts (connect env a) = contexts a \<and> audioContextRef (connect env a) = audioContextRef a) \<or>
   (audioContextRef a = None \<and>
    audioContextRef (connect env a) = Some (length (contexts a), Suc (length (contexts a))) \<and>
    contexts (connect env a) = contexts a @
      [\<lparr> ctxSampleRate = 16000, ctxClosed = False \<rparr>,
       \<lparr> ctxSampleRate = 24000, ctxClosed = False \<rparr>])"
  by (simp add: connect_def connectFailed_def ensureAudioContext_def Let_def split: option.splits)

lemma step_contexts:
  "(contexts (step e a) = contexts a \<and> audioContextRef (step e a) = audioContextRef a) \<or>
   (audioContextRef a = None \<and>
    audioContextRef (step e a) = Some (length (contexts a), Suc (length (contexts a))) \<and>
    contexts (step e a) = contexts a @
      [\<lparr> ctxSampleRate = 16000, ctxClosed = False \<rparr>,
       \<lparr> ctxSampleRate = 24000, ctxClosed = False \<rparr>])"
proof (cases e)
  case (Connect env)
  then show ?thesis using connect_contexts [of env a] by simp
next
  case (OnMessage env m)
  then show ?thesis using onmessage_contexts [of env m a] by simp
qed (simp_all add: disconnect_def onopen_def onerror_def onclose_def onended_def Let_def
      split: option.splits)

lemma run_snoc: "run (es @ [e]) a = step e (run es a)"
  by (simp add: run_def)

lemma run_append: "run (es @ es') a = run es' (run es a)"
  by (simp add: run_def)

lemma run_keeps_contexts:
  "audioContextRef a \<noteq> None \<Longrightarrow>
   audioContextRef (run es a) = audioContextRef a \<and> contexts (run es a) = contexts a"
proof (induction es rule: rev_induct)
  case Nil
  show ?case by (simp add: run_def)
next
  case (snoc e es)
  then have "audioContextRef (run es a) \<noteq> None" by simp
  with step_contexts [of e "run es a"] snoc show ?case by (auto simp: run_snoc)
qed

lemma run_initial_contexts:
  "(audioContextRef (run es initial) = None \<and> contexts (run es initial) = []) \<or>
   (audioContextRef (run es initial) = Some (0, 1) \<and>
    contexts (run es initial) =
      [\<lparr> ctxSampleRate = 16000, ctxClosed = False \<rparr>,
       \<lparr> ctxSampleRate = 24000, ctxClosed = False \<rparr>])"
proof (induction es rule: rev_induct)
  case Nil
  show ?case by (simp add: run_def initial_def)
next
  case (snoc e es)
  with step_contexts [of e "run es initial"] show ?case by (auto simp: run_snoc)
qed

text \<open>
  Claim C10. After any sequence of events from the initial state, either no audio
  context exists, or exactly the pair exists that the reference names, the input context
  at 16 kHz and the output context at 24 kHz, both open. Once the reference is set, no
  further events change it or the contexts; and every \<open>connect()\<close> that gets past the
  key selection leaves the reference set.
\<close>

theorem audio_contexts_created_once:
  "((audioContextRef (run es initial) = None \<and> contexts (run es initial) = []) \<or>
    (audioContextRef (run es initial) = Some (0, 1) \<and>
     contexts (run es initial) =
       [\<lparr> ctxSampleRate = 16000, ctxClosed = False \<rparr>,
        \<lparr> ctxSampleRate = 24000, ctxClosed = False \<rparr>])) \<and>
   (audioContextRef (run es initial) \<noteq> None \<longrightarrow>
      audioContextRef (run (es @ es') initial) = audioContextRef (run es initial) \<and>
      contexts (run (es @ es') initial) = contexts (run es initial)) \<and>
   (keySelection env = None \<longrightarrow> audioContextRef (connect env a) \<noteq> None)"
proof -
  have "keySelection env = None \<longrightarrow> audioContextRef (connect env a) \<noteq> None"
    by (simp add: connect_def connectFailed_def ensureAudioContext_def Let_def split: option.splits)
  then show ?thesis
    using run_initial_contexts [of es] run_keeps_contexts [of "run es initial" es']
    by (simp only: run_append) blast
qed

text \<open>Witness for C10: a refused microphone, then a session opened, closed, failed
  and reopened.\<close>

theorem audio_contexts_created_once_witness:
  "audioContextRef (run [Connect micDenied] initial) = Some (0, 1) \<and>
   audioContextRef (run ([Connect micDenied] @
       [Connect allSucceed, OnOpen 0, Disconnect, OnClose, OnError None, Connect allSucceed])
     initial) = Some (0, 1) \<and>
   contexts (run ([Connect micDenied] @
       [Connect allSucceed, OnOpen 0, Disconnect, OnClose, OnError None, Connect allSucceed])
     initial) =
     [\<lparr> ctxSampleRate = 16000, ctxClosed = False \<rparr>,
      \<lparr> ctxSampleRate = 24000, ctxClosed = False \<rparr>]"
proof -
  have c: "audioContextRef (run [Connect micDenied] initial) = Some (0, 1)"
    "contexts (run [Connect micDenied] initial) =
       [\<lparr> ctxSampleRate = 16000, ctxClosed = False \<rparr>,
        \<lparr> ctxSampleRate = 24000, ctxClosed = False \<rparr>]"
    by (simp_all add: run_def connect_def connectFailed_def ensureAudioContext_def
        micDenied_def initial_def Let_def)
  from audio_contexts_created_once [of "[Connect micDenied]"
      "[Connect allSucceed, OnOpen 0, Disconnect, OnClose, OnError None, Connect allSucceed]"
      micDenied initial] c
  show ?thesis by simp
qed

end
